theory Spec2Isabelle
  imports Main "HOL-Library.Word"
begin

unbundle bit_operations_syntax

section \<open>Class tracking of the JDWP agent (classTrack.c)\<close>

text \<open>
  The module attaches, to every prepared class object, a JVMTI tag that is the address of
  a heap-allocated copy of the class signature, and reports the signature to the event
  handler when the class object is freed. The embedding keeps the C names. The state of
  the module and of the JVMTI environment it talks to is one record; every call into
  JVMTI or into another file of the agent is a function on that record, and the return
  codes the callee may produce are taken as parameters.
\<close>

subsection \<open>Data\<close>

type_synonym jlong = "64 word"
type_synonym jint = "32 word"
type_synonym jclass = nat
type_synonym jvmtiEnv = nat
type_synonym JNIEnv = nat

text \<open>
  A \<^verbatim>\<open>char*\<close> is the 64-bit address it holds, so \<^verbatim>\<open>ptr_to_jlong\<close> and
  \<^verbatim>\<open>jlong_to_ptr\<close> are the identity and \<^verbatim>\<open>NULL\<close> is address 0. A
  \<^verbatim>\<open>jvmtiEnv*\<close> is an option, \<open>None\<close> for \<^verbatim>\<open>NULL\<close>.
\<close>

datatype jvmtiError = JVMTI_ERROR_NONE | JVMTI_ERROR nat | AGENT_ERROR_INTERNAL

datatype jvmtiEvent = JVMTI_EVENT_OBJECT_FREE | JVMTI_EVENT_CLASS_PREPARE

definition NOT_TAGGED :: jlong where
  "NOT_TAGGED = 0"

text \<open>The class status bits of jvmti.h.\<close>

definition JVMTI_CLASS_STATUS_PREPARED :: jint where
  "JVMTI_CLASS_STATUS_PREPARED = 2"

definition JVMTI_CLASS_STATUS_ARRAY :: jint where
  "JVMTI_CLASS_STATUS_ARRAY = 16"

text \<open>The two fields of the agent's global data that the module reads.\<close>

record BackendGlobalData =
  assertOn :: bool
  assertFatal :: bool

text \<open>
  \<open>trackingEnv\<close> is the static variable of the file. \<open>tags\<close> is the tag store of that
  JVMTI environment, one slot per class object. \<open>heap\<close> holds the live C strings by
  address (the characters before the terminating NUL). The three lists log, in order, the
  buffers JVMTI allocated (the signature strings, and the array of loaded classes), the
  calls of \<^verbatim>\<open>jvmtiDeallocate\<close> and the calls of \<^verbatim>\<open>eventHandler_synthesizeUnloadEvent\<close>; \<open>assertions\<close> logs the
  expressions of failed assertions. The last three fields are what
  \<^verbatim>\<open>setupEvents\<close> configured.
\<close>

record tracker =
  trackingEnv :: "jvmtiEnv option"
  tags :: "jclass \<Rightarrow> jlong"
  heap :: "jlong \<rightharpoonup> string"
  allocated :: "jlong list"
  deallocated :: "jlong list"
  unloads :: "(jlong \<times> JNIEnv) list"
  assertions :: "string list"
  can_generate_object_free_events :: bool
  callbacks :: "jvmtiEvent list"
  enabled :: "jvmtiEvent list"

text \<open>
  What JVMTI answers to the calls one run of \<^verbatim>\<open>addPreparedClass\<close> makes: the
  return code of \<^verbatim>\<open>classSignature\<close> with the address and the contents of the
  buffer it allocates, and the return codes of \<^verbatim>\<open>GetTag\<close> and \<^verbatim>\<open>SetTag\<close>.
\<close>

record answers =
  sig_err :: jvmtiError
  sig_ptr :: jlong
  sig_str :: string
  getTag_err :: jvmtiError
  setTag_err :: jvmtiError

text \<open>
  A function of the module either returns, with the new state, or ends the process through
  \<^verbatim>\<open>EXIT_ERROR\<close>; the exit carries the error code, the message and the state at
  that moment.
\<close>

type_synonym fatal = "jvmtiError \<times> string"
type_synonym result = "(fatal \<times> tracker) + tracker"

definition EXIT_ERROR :: "jvmtiError \<Rightarrow> string \<Rightarrow> tracker \<Rightarrow> result" where
  "EXIT_ERROR error msg s = Inl ((error, msg), s)"

definition final :: "result \<Rightarrow> tracker" where
  "final r = (case r of Inl (e, s) \<Rightarrow> s | Inr s \<Rightarrow> s)"

definition initial :: tracker where
  "initial = \<lparr> trackingEnv = None, tags = (\<lambda>k. NOT_TAGGED), heap = Map.empty,
     allocated = [], deallocated = [], unloads = [], assertions = [],
     can_generate_object_free_events = False, callbacks = [], enabled = [] \<rparr>"

subsection \<open>Callees outside the file\<close>

text \<open>
  Modelled from the spec: the macro \<^verbatim>\<open>JDI_ASSERT\<close> of util.h. It evaluates its
  expression only when consistency checking is on (\<^verbatim>\<open>gdata && gdata->assertOn\<close>,
  the condition \<^verbatim>\<open>addPreparedClass\<close> itself tests); a failed assertion is reported,
  and ends the process when the agent was started with fatal assertions.
\<close>

definition assertsEnabled :: "BackendGlobalData option \<Rightarrow> bool" where
  "assertsEnabled gdata = (case gdata of None \<Rightarrow> False | Some g \<Rightarrow> assertOn g)"

definition jdiAssertionFailed :: "BackendGlobalData option \<Rightarrow> string \<Rightarrow> tracker \<Rightarrow> result" where
  "jdiAssertionFailed gdata msg s =
     (let s1 = s\<lparr>assertions := assertions s @ [msg]\<rparr>
      in if (case gdata of None \<Rightarrow> False | Some g \<Rightarrow> assertFatal g)
         then EXIT_ERROR AGENT_ERROR_INTERNAL ''Assertion Failed'' s1
         else Inr s1)"

definition JDI_ASSERT :: "BackendGlobalData option \<Rightarrow> bool \<Rightarrow> string \<Rightarrow> tracker \<Rightarrow> result" where
  "JDI_ASSERT gdata expression msg s =
     (if assertsEnabled gdata \<and> \<not> expression then jdiAssertionFailed gdata msg s else Inr s)"

text \<open>
  Modelled from the spec: \<^verbatim>\<open>classSignature\<close> of util.c computes the Class Identity
  into a freshly allocated buffer, or fails. On failure nothing is allocated.
\<close>

definition classSignature :: "answers \<Rightarrow> jclass \<Rightarrow> tracker \<Rightarrow> jvmtiError \<times> jlong \<times> tracker" where
  "classSignature a klass s =
     (if sig_err a = JVMTI_ERROR_NONE
      then (JVMTI_ERROR_NONE, sig_ptr a,
            s\<lparr>heap := (heap s)(sig_ptr a \<mapsto> sig_str a), allocated := allocated s @ [sig_ptr a]\<rparr>)
      else (sig_err a, sig_ptr a, s))"

text \<open>Modelled from the spec: \<^verbatim>\<open>jvmtiDeallocate\<close> of util.c releases a buffer.\<close>

definition jvmtiDeallocate :: "jlong \<Rightarrow> tracker \<Rightarrow> tracker" where
  "jvmtiDeallocate p s = s\<lparr>heap := (heap s)(p := None), deallocated := deallocated s @ [p]\<rparr>"

text \<open>
  Modelled from the spec: the Tag Store, one slot per object. \<^verbatim>\<open>GetTag\<close> reads the
  slot, \<^verbatim>\<open>SetTag\<close> writes it; a failing call changes nothing.
\<close>

definition GetTag :: "answers \<Rightarrow> jclass \<Rightarrow> tracker \<Rightarrow> jvmtiError \<times> jlong" where
  "GetTag a klass s = (getTag_err a, tags s klass)"

definition SetTag :: "answers \<Rightarrow> jclass \<Rightarrow> jlong \<Rightarrow> tracker \<Rightarrow> jvmtiError \<times> tracker" where
  "SetTag a klass tag s =
     (if setTag_err a = JVMTI_ERROR_NONE
      then (JVMTI_ERROR_NONE, s\<lparr>tags := (tags s)(klass := tag)\<rparr>)
      else (setTag_err a, s))"

text \<open>
  \<^verbatim>\<open>strcmp(a, b) == 0\<close> on two addresses: both strings are read from the heap. Reading
  an address that holds no live string is undefined in C; here the comparison then fails.
\<close>

definition strcmp_eq :: "tracker \<Rightarrow> jlong \<Rightarrow> jlong \<Rightarrow> bool" where
  "strcmp_eq s a b = (case (heap s a, heap s b) of (Some x, Some y) \<Rightarrow> x = y | _ \<Rightarrow> False)"

text \<open>
  Modelled from the spec: \<^verbatim>\<open>eventHandler_synthesizeUnloadEvent\<close> of eventHandler.c,
  the event consumer. It takes the identity and the execution-context handle; the call is
  logged.
\<close>

definition eventHandler_synthesizeUnloadEvent :: "jlong \<Rightarrow> JNIEnv \<Rightarrow> tracker \<Rightarrow> tracker" where
  "eventHandler_synthesizeUnloadEvent signature env s = s\<lparr>unloads := unloads s @ [(signature, env)]\<rparr>"

subsection \<open>The functions of classTrack.c\<close>

text \<open>
  \<^verbatim>\<open>cbTrackingObjectFree\<close>. \<open>getEnv\<close> is the value the call \<^verbatim>\<open>getEnv()\<close> returns,
  the JNI environment of the current thread.
\<close>

definition cbTrackingObjectFree ::
  "BackendGlobalData option \<Rightarrow> JNIEnv \<Rightarrow> jvmtiEnv option \<Rightarrow> jlong \<Rightarrow> tracker \<Rightarrow> result" where
  "cbTrackingObjectFree gdata getEnv jvmti_env tag s =
     (case JDI_ASSERT gdata (jvmti_env = trackingEnv s) ''jvmti_env == trackingEnv'' s of
        Inl e \<Rightarrow> Inl e
      | Inr s1 \<Rightarrow> Inr (eventHandler_synthesizeUnloadEvent tag getEnv s1))"

text \<open>Lines 101 to 105 of \<^verbatim>\<open>addPreparedClass\<close>: the store into the tag slot.\<close>

definition storeSignature :: "answers \<Rightarrow> jclass \<Rightarrow> jlong \<Rightarrow> tracker \<Rightarrow> result" where
  "storeSignature a klass signature s =
     (case SetTag a klass signature s of (error, s1) \<Rightarrow>
        if error \<noteq> JVMTI_ERROR_NONE
        then EXIT_ERROR error ''SetTag'' (jvmtiDeallocate signature s1)
        else Inr s1)"

text \<open>\<^verbatim>\<open>addPreparedClass\<close>; its \<^verbatim>\<open>JNIEnv\<close> argument is not used by the body.\<close>

definition addPreparedClass :: "BackendGlobalData option \<Rightarrow> answers \<Rightarrow> jclass \<Rightarrow> tracker \<Rightarrow> result" where
  "addPreparedClass gdata a klass s =
     (case classSignature a klass s of (error, signature, s1) \<Rightarrow>
        if error \<noteq> JVMTI_ERROR_NONE then EXIT_ERROR error ''signature'' s1
        else if assertsEnabled gdata then
          (case GetTag a klass s1 of (error, tag) \<Rightarrow>
             if error \<noteq> JVMTI_ERROR_NONE
             then EXIT_ERROR error ''Unable to GetTag with class trackingEnv'' s1
             else if tag \<noteq> NOT_TAGGED then
               (case JDI_ASSERT gdata (strcmp_eq s1 signature tag)
                       ''strcmp(signature, oldSignature) == 0'' s1 of
                  Inl e \<Rightarrow> Inl e
                | Inr s2 \<Rightarrow> Inr (jvmtiDeallocate signature s2))
             else storeSignature a klass signature s1)
        else storeSignature a klass signature s1)"

text \<open>\<^verbatim>\<open>cbTrackingClassPrepare\<close>; the thread argument is not used.\<close>

definition cbTrackingClassPrepare ::
  "BackendGlobalData option \<Rightarrow> answers \<Rightarrow> jvmtiEnv option \<Rightarrow> jclass \<Rightarrow> tracker \<Rightarrow> result" where
  "cbTrackingClassPrepare gdata a jvmti_env klass s =
     (case JDI_ASSERT gdata (jvmti_env = trackingEnv s) ''jvmti_env == trackingEnv'' s of
        Inl e \<Rightarrow> Inl e
      | Inr s1 \<Rightarrow> addPreparedClass gdata a klass s1)"

text \<open>
  What the environment answers during \<^verbatim>\<open>classTrack_initialize\<close>: the handle
  \<^verbatim>\<open>getSpecialJvmti\<close> returns, the return codes of the four calls of
  \<^verbatim>\<open>setupEvents\<close>, the return code of \<^verbatim>\<open>allLoadedClasses\<close> with the array
  it allocates (its address and its elements, \<^verbatim>\<open>classCount\<close> being their number),
  \<^verbatim>\<open>classStatus\<close>, and the answers to the calls made for \<^verbatim>\<open>classes[i]\<close>.
\<close>

record startup =
  getSpecialJvmti :: "jvmtiEnv option"
  addCapabilities_err :: jvmtiError
  setEventCallbacks_err :: jvmtiError
  enableObjectFree_err :: jvmtiError
  enableClassPrepare_err :: jvmtiError
  allLoadedClasses_err :: jvmtiError
  classes_ptr :: jlong
  classes :: "jclass list"
  classStatus :: "jclass \<Rightarrow> jint"
  class_answers :: "nat \<Rightarrow> answers"

text \<open>
  Modelled from the spec: \<^verbatim>\<open>allLoadedClasses\<close> of util.c enumerates the loaded
  classes into a freshly allocated array, or fails. On failure nothing is allocated.
\<close>

definition allLoadedClasses :: "startup \<Rightarrow> tracker \<Rightarrow> jvmtiError \<times> jlong \<times> jclass list \<times> tracker" where
  "allLoadedClasses e s =
     (if allLoadedClasses_err e = JVMTI_ERROR_NONE
      then (JVMTI_ERROR_NONE, classes_ptr e, classes e,
            s\<lparr>allocated := allocated s @ [classes_ptr e]\<rparr>)
      else (allLoadedClasses_err e, classes_ptr e, [], s))"

text \<open>\<^verbatim>\<open>setupEvents\<close>: the flag returned and the state.\<close>

definition setupEvents :: "startup \<Rightarrow> tracker \<Rightarrow> bool \<times> tracker" where
  "setupEvents e s =
     (if addCapabilities_err e \<noteq> JVMTI_ERROR_NONE then (False, s)
      else let s1 = s\<lparr>can_generate_object_free_events := True\<rparr> in
      if setEventCallbacks_err e \<noteq> JVMTI_ERROR_NONE then (False, s1)
      else let s2 = s1\<lparr>callbacks := [JVMTI_EVENT_OBJECT_FREE, JVMTI_EVENT_CLASS_PREPARE]\<rparr> in
      if enableObjectFree_err e \<noteq> JVMTI_ERROR_NONE then (False, s2)
      else let s3 = s2\<lparr>enabled := enabled s2 @ [JVMTI_EVENT_OBJECT_FREE]\<rparr> in
      if enableClassPrepare_err e \<noteq> JVMTI_ERROR_NONE then (False, s3)
      else (True, s3\<lparr>enabled := enabled s3 @ [JVMTI_EVENT_CLASS_PREPARE]\<rparr>))"

text \<open>
  The loop of \<^verbatim>\<open>classTrack_initialize\<close> from index \<open>i\<close> on; \<open>ks\<close> are the elements
  \<^verbatim>\<open>classes[i]\<close>, \<^verbatim>\<open>classes[i+1]\<close>, ... still to visit.
\<close>

fun tagLoadedClasses ::
  "BackendGlobalData option \<Rightarrow> startup \<Rightarrow> nat \<Rightarrow> jclass list \<Rightarrow> tracker \<Rightarrow> result" where
  "tagLoadedClasses gdata e i [] s = Inr s"
| "tagLoadedClasses gdata e i (klass # ks) s =
     (let wanted = JVMTI_CLASS_STATUS_PREPARED OR JVMTI_CLASS_STATUS_ARRAY;
          status = classStatus e klass
      in if status AND wanted \<noteq> 0
         then (case addPreparedClass gdata (class_answers e i) klass s of
                 Inl x \<Rightarrow> Inl x
               | Inr s1 \<Rightarrow> tagLoadedClasses gdata e (Suc i) ks s1)
         else tagLoadedClasses gdata e (Suc i) ks s)"

text \<open>\<^verbatim>\<open>classTrack_initialize\<close>.\<close>

definition classTrack_initialize :: "BackendGlobalData option \<Rightarrow> startup \<Rightarrow> tracker \<Rightarrow> result" where
  "classTrack_initialize gdata e s =
     (let s1 = s\<lparr>trackingEnv := getSpecialJvmti e\<rparr> in
      if trackingEnv s1 = None
      then EXIT_ERROR AGENT_ERROR_INTERNAL ''Failed to allocate tag-tracking jvmtiEnv'' s1
      else case setupEvents e s1 of (ok, s2) \<Rightarrow>
        if \<not> ok then EXIT_ERROR AGENT_ERROR_INTERNAL ''Unable to setup ObjectFree tracking'' s2
        else case allLoadedClasses e s2 of (error, classes_array, classes_elems, s3) \<Rightarrow>
          if error = JVMTI_ERROR_NONE
          then (case tagLoadedClasses gdata e 0 classes_elems s3 of
                  Inl x \<Rightarrow> Inl x
                | Inr s4 \<Rightarrow> Inr (jvmtiDeallocate classes_array s4))
          else EXIT_ERROR error ''loaded classes array'' s3)"

subsection \<open>The notifications the substrate delivers\<close>

text \<open>
  Modelled from the spec: the substrate calls \<^verbatim>\<open>cbTrackingClassPrepare\<close> for a
  prepared class, and when a tagged class object is freed it calls
  \<^verbatim>\<open>cbTrackingObjectFree\<close> with the tag of the object and destroys the slot; an
  untagged object is freed silently. \<open>Bootstrap\<close> is the call of
  \<^verbatim>\<open>addPreparedClass\<close> that the loop of \<^verbatim>\<open>classTrack_initialize\<close> makes.
\<close>

datatype notification =
    Bootstrap jclass answers
  | ClassPrepare "jvmtiEnv option" jclass answers
  | ObjectFree "jvmtiEnv option" jclass JNIEnv

fun deliver :: "BackendGlobalData option \<Rightarrow> notification \<Rightarrow> tracker \<Rightarrow> result" where
  "deliver gdata (Bootstrap klass a) s = addPreparedClass gdata a klass s"
| "deliver gdata (ClassPrepare jvmti_env klass a) s = cbTrackingClassPrepare gdata a jvmti_env klass s"
| "deliver gdata (ObjectFree jvmti_env klass env) s =
     (if tags s klass = NOT_TAGGED then Inr s
      else case cbTrackingObjectFree gdata env jvmti_env (tags s klass) s of
             Inl x \<Rightarrow> Inl x
           | Inr s1 \<Rightarrow> Inr (s1\<lparr>tags := (tags s1)(klass := NOT_TAGGED)\<rparr>))"

fun run :: "BackendGlobalData option \<Rightarrow> notification list \<Rightarrow> tracker \<Rightarrow> result" where
  "run gdata [] s = Inr s"
| "run gdata (n # ns) s =
     (case deliver gdata n s of Inl x \<Rightarrow> Inl x | Inr s1 \<Rightarrow> run gdata ns s1)"

subsection \<open>Predicates on states and on runs\<close>

text \<open>The class and the answers of a notification that reaches \<^verbatim>\<open>addPreparedClass\<close>.\<close>

fun prepared :: "notification \<Rightarrow> (jclass \<times> answers) option" where
  "prepared (Bootstrap klass a) = Some (klass, a)"
| "prepared (ClassPrepare jvmti_env klass a) = Some (klass, a)"
| "prepared (ObjectFree jvmti_env klass env) = None"

text \<open>
  The books of the identity strings balance: every address was handed out by the allocator
  as often as it was released, forwarded to the event consumer, or is held by a tag slot
  now. The tagged class objects are finitely many.
\<close>

definition ledger :: "tracker \<Rightarrow> bool" where
  "ledger s =
     (finite {k. tags s k \<noteq> NOT_TAGGED} \<and>
      (\<forall>p. p \<noteq> 0 \<longrightarrow>
         count_list (allocated s) p =
           count_list (deallocated s) p + count_list (map fst (unloads s)) p
             + card {k. tags s k = p}))"

text \<open>
  Along a run: every signature buffer has a non-null address, and a class reaches
  \<^verbatim>\<open>addPreparedClass\<close> with consistency checking on or with its slot untagged.
\<close>

fun guarded :: "BackendGlobalData option \<Rightarrow> notification list \<Rightarrow> tracker \<Rightarrow> bool" where
  "guarded gdata [] s = True"
| "guarded gdata (n # ns) s =
     ((case prepared n of
         None \<Rightarrow> True
       | Some (klass, a) \<Rightarrow>
           (sig_err a = JVMTI_ERROR_NONE \<longrightarrow> sig_ptr a \<noteq> 0)
           \<and> (assertsEnabled gdata \<or> tags s klass = NOT_TAGGED))
      \<and> (case deliver gdata n s of Inl x \<Rightarrow> True | Inr s1 \<Rightarrow> guarded gdata ns s1))"

text \<open>
  Every tagged slot holds the address of a live string that is the signature \<open>sg\<close> gives
  the class.
\<close>

definition intact :: "(jclass \<Rightarrow> string) \<Rightarrow> tracker \<Rightarrow> bool" where
  "intact sg s = (\<forall>k. tags s k \<noteq> NOT_TAGGED \<longrightarrow> heap s (tags s k) = Some (sg k))"

text \<open>
  Along a run: the signature computed for a class is always the one \<open>sg\<close> gives it, and
  the allocator hands out a non-null address that holds no live string.
\<close>

fun well_behaved :: "(jclass \<Rightarrow> string) \<Rightarrow> BackendGlobalData option \<Rightarrow> notification list \<Rightarrow> tracker \<Rightarrow> bool" where
  "well_behaved sg gdata [] s = True"
| "well_behaved sg gdata (n # ns) s =
     ((case prepared n of
         None \<Rightarrow> True
       | Some (klass, a) \<Rightarrow>
           (sig_err a = JVMTI_ERROR_NONE \<longrightarrow>
              sig_ptr a \<noteq> 0 \<and> heap s (sig_ptr a) = None \<and> sig_str a = sg klass))
      \<and> (case deliver gdata n s of Inl x \<Rightarrow> True | Inr s1 \<Rightarrow> well_behaved sg gdata ns s1))"

text \<open>The status of a class includes the "prepared" bit or the "array" bit.\<close>

definition prepared_or_array :: "jint \<Rightarrow> bool" where
  "prepared_or_array status =
     (status AND (JVMTI_CLASS_STATUS_PREPARED OR JVMTI_CLASS_STATUS_ARRAY) \<noteq> 0)"

subsection \<open>The scenario of the specification\<close>

text \<open>
  Answers with which every call succeeds; an agent started with assertions on, and fatal;
  a tracker whose tracking environment is environment 1; and the scenario: bootstrap sees
  "Lcom/app/Main;", a prepare notification arrives for "Lcom/app/Helper;", the first class
  object is freed.
\<close>

definition answer :: "jlong \<Rightarrow> string \<Rightarrow> answers" where
  "answer p str = \<lparr> sig_err = JVMTI_ERROR_NONE, sig_ptr = p, sig_str = str,
     getTag_err = JVMTI_ERROR_NONE, setTag_err = JVMTI_ERROR_NONE \<rparr>"

definition checked :: "BackendGlobalData option" where
  "checked = Some \<lparr> assertOn = True, assertFatal = True \<rparr>"

definition started :: tracker where
  "started = initial\<lparr>trackingEnv := Some 1\<rparr>"

definition main_boot :: notification where
  "main_boot = Bootstrap 1 (answer 8 ''Lcom/app/Main;'')"

definition helper_prepared :: notification where
  "helper_prepared = ClassPrepare (Some 1) 2 (answer 16 ''Lcom/app/Helper;'')"

definition main_freed :: notification where
  "main_freed = ObjectFree (Some 1) 1 5"

definition scenario :: "notification list" where
  "scenario = [main_boot, helper_prepared, main_freed]"

definition signatures :: "jclass \<Rightarrow> string" where
  "signatures k = (if k = 1 then ''Lcom/app/Main;'' else ''Lcom/app/Helper;'')"

text \<open>The tracker after the bootstrap of the scenario.\<close>

definition tagged :: tracker where
  "tagged = started\<lparr>tags := (tags started)(1 := 8), heap := [8 \<mapsto> ''Lcom/app/Main;''],
     allocated := [8]\<rparr>"

text \<open>The same class object prepared a second time, then freed.\<close>

definition main_again :: notification where
  "main_again = ClassPrepare (Some 1) 1 (answer 24 ''Lcom/app/Main;'')"

definition twice :: "notification list" where
  "twice = [main_boot, main_again, main_freed]"

text \<open>A start-up in which every call succeeds and three classes are loaded.\<close>

definition boot :: startup where
  "boot = \<lparr> getSpecialJvmti = Some 1, addCapabilities_err = JVMTI_ERROR_NONE,
     setEventCallbacks_err = JVMTI_ERROR_NONE, enableObjectFree_err = JVMTI_ERROR_NONE,
     enableClassPrepare_err = JVMTI_ERROR_NONE, allLoadedClasses_err = JVMTI_ERROR_NONE,
     classes_ptr = 64, classes = [1, 2, 3],
     classStatus = (\<lambda>k. if k = 1 then 7 else if k = 2 then 1 else 16),
     class_answers = (\<lambda>i. if i = 0 then answer 8 ''Lcom/app/Main;'' else answer 24 ''[I'') \<rparr>"

text \<open>A failing return code.\<close>

definition failure :: jvmtiError where
  "failure = JVMTI_ERROR 1"

section \<open>Properties\<close>

lemmas tracker_defs = addPreparedClass_def classSignature_def GetTag_def SetTag_def
  storeSignature_def JDI_ASSERT_def jdiAssertionFailed_def EXIT_ERROR_def jvmtiDeallocate_def
  strcmp_eq_def cbTrackingClassPrepare_def cbTrackingObjectFree_def
  eventHandler_synthesizeUnloadEvent_def

lemmas scenario_defs = answer_def checked_def started_def initial_def tagged_def failure_def
  main_boot_def helper_prepared_def main_freed_def main_again_def scenario_def twice_def
  signatures_def assertsEnabled_def NOT_TAGGED_def final_def

subsection \<open>The object-freed handler\<close>

text \<open>
  Claim C1. A class object holds a tag whose string is \<open>S\<close>. When the substrate delivers
  the object-freed notification with that tag, from the tracking environment, the handler
  returns and has made exactly one more call of the event consumer: its identity argument
  is the tag, which still reads as the string \<open>S\<close>, and its second argument is the
  current execution-context handle.
\<close>

theorem unload_forwards_identity:
  assumes "jvmti_env = trackingEnv s" and "tags s klass \<noteq> NOT_TAGGED"
    and "heap s (tags s klass) = Some S"
  shows "\<exists>s'. cbTrackingObjectFree gdata env jvmti_env (tags s klass) s = Inr s'
           \<and> unloads s' = unloads s @ [(tags s klass, env)]
           \<and> heap s' (fst (last (unloads s'))) = Some S
           \<and> snd (last (unloads s')) = env"
  using assms
  by (simp add: cbTrackingObjectFree_def JDI_ASSERT_def eventHandler_synthesizeUnloadEvent_def)

theorem unload_forwards_identity_witness:
  "Some 1 = trackingEnv tagged \<and> tags tagged 1 \<noteq> NOT_TAGGED
   \<and> heap tagged (tags tagged 1) = Some ''Lcom/app/Main;''
   \<and> (\<exists>s'. cbTrackingObjectFree checked 5 (Some 1) 8 tagged = Inr s'
           \<and> unloads s' = [(8, 5)] \<and> heap s' 8 = Some ''Lcom/app/Main;'')"
proof -
  have h: "Some 1 = trackingEnv tagged" "tags tagged 1 \<noteq> NOT_TAGGED"
    "heap tagged (tags tagged 1) = Some ''Lcom/app/Main;''"
    by (simp_all add: scenario_defs)
  have t: "tags tagged 1 = 8" "unloads tagged = []"
    by (simp_all add: scenario_defs)
  from unload_forwards_identity [OF h, of checked 5] obtain s'
    where "cbTrackingObjectFree checked 5 (Some 1) 8 tagged = Inr s'"
      and "unloads s' = [(8, 5)]" and "heap s' (fst (last (unloads s'))) = Some ''Lcom/app/Main;''"
    unfolding t by auto
  then show ?thesis using h by auto
qed

text \<open>
  Claim C9. The object-freed handler neither reads nor writes any tag slot, and neither
  reads nor releases any identity string: run on a state with other tags and another heap
  it does the same, and it leaves tags, heap and the list of released buffers as they
  were. When the substrate frees one class object, the slot of every other class object is
  as before.
\<close>

theorem object_free_frame:
  "cbTrackingObjectFree gdata env jvmti_env tag (s\<lparr>tags := t, heap := h\<rparr>)
     = map_sum (\<lambda>(x, s'). (x, s'\<lparr>tags := t, heap := h\<rparr>)) (\<lambda>s'. s'\<lparr>tags := t, heap := h\<rparr>)
         (cbTrackingObjectFree gdata env jvmti_env tag s)
   \<and> tags (final (cbTrackingObjectFree gdata env jvmti_env tag s)) = tags s
   \<and> heap (final (cbTrackingObjectFree gdata env jvmti_env tag s)) = heap s
   \<and> deallocated (final (cbTrackingObjectFree gdata env jvmti_env tag s)) = deallocated s
   \<and> (\<forall>other. other \<noteq> klass \<longrightarrow>
        tags (final (deliver gdata (ObjectFree jvmti_env klass env) s)) other = tags s other)"
  by (auto simp add: tracker_defs final_def Let_def split: sum.splits)

theorem object_free_frame_witness:
  "(2::nat) \<noteq> 1
   \<and> tags (final (run checked [main_boot, helper_prepared] started)) 2 = 16
   \<and> tags (final (deliver checked main_freed
              (final (run checked [main_boot, helper_prepared] started)))) 2 = 16"
proof -
  have before: "tags (final (run checked [main_boot, helper_prepared] started)) 2 = 16"
    by (simp add: tracker_defs scenario_defs)
  have "(2::nat) \<noteq> 1" by simp
  with object_free_frame [where gdata = checked and env = 5 and jvmti_env = "Some 1"
      and s = "final (run checked [main_boot, helper_prepared] started)" and klass = 1]
  have "tags (final (deliver checked (ObjectFree (Some 1) 1 5)
              (final (run checked [main_boot, helper_prepared] started)))) 2
        = tags (final (run checked [main_boot, helper_prepared] started)) 2"
    by blast
  then show ?thesis using before by (simp add: main_freed_def)
qed

subsection \<open>addPreparedClass\<close>

text \<open>
  Claim C5. Consistency checking is on, the signature is computed and the slot is read, and
  the slot of the class object is already tagged. Then the call writes no tag slot, whether
  it returns or the assertion ends the process. When it returns, the fresh string has been
  released, exactly once, and is no longer live. The assertion compares the fresh string
  with the stored one: when they are equal the call returns and reports no failed
  assertion, when they differ the failed assertion is reported.
\<close>

theorem duplicate_released:
  assumes "assertsEnabled gdata" and "sig_err a = JVMTI_ERROR_NONE"
    and "getTag_err a = JVMTI_ERROR_NONE" and "tags s klass \<noteq> NOT_TAGGED"
  shows "tags (final (addPreparedClass gdata a klass s)) = tags s
     \<and> (\<forall>s'. addPreparedClass gdata a klass s = Inr s' \<longrightarrow>
           deallocated s' = deallocated s @ [sig_ptr a]
           \<and> allocated s' = allocated s @ [sig_ptr a]
           \<and> heap s' = (heap s)(sig_ptr a := None)
           \<and> unloads s' = unloads s)
     \<and> (tags s klass = sig_ptr a \<or> heap s (tags s klass) = Some (sig_str a) \<longrightarrow>
           \<not> isl (addPreparedClass gdata a klass s)
           \<and> assertions (final (addPreparedClass gdata a klass s)) = assertions s)
     \<and> (tags s klass \<noteq> sig_ptr a \<and> heap s (tags s klass) \<noteq> Some (sig_str a) \<longrightarrow>
           assertions (final (addPreparedClass gdata a klass s))
             = assertions s @ [''strcmp(signature, oldSignature) == 0''])"
  using assms
  by (auto simp add: tracker_defs final_def Let_def split: option.splits if_splits)

theorem duplicate_released_witness:
  "assertsEnabled checked \<and> tags tagged 1 \<noteq> NOT_TAGGED
   \<and> tags (final (addPreparedClass checked (answer 16 ''Lcom/app/Main;'') 1 tagged)) 1 = 8
   \<and> deallocated (final (addPreparedClass checked (answer 16 ''Lcom/app/Main;'') 1 tagged)) = [16]
   \<and> \<not> isl (addPreparedClass checked (answer 16 ''Lcom/app/Main;'') 1 tagged)"
proof -
  have h: "assertsEnabled checked" "sig_err (answer 16 ''Lcom/app/Main;'') = JVMTI_ERROR_NONE"
    "getTag_err (answer 16 ''Lcom/app/Main;'') = JVMTI_ERROR_NONE" "tags tagged 1 \<noteq> NOT_TAGGED"
    by (simp_all add: scenario_defs)
  have r: "addPreparedClass checked (answer 16 ''Lcom/app/Main;'') 1 tagged
             = Inr (final (addPreparedClass checked (answer 16 ''Lcom/app/Main;'') 1 tagged))"
    by (simp add: tracker_defs scenario_defs)
  have t: "tags tagged 1 = 8" "deallocated tagged = []"
    "sig_ptr (answer 16 ''Lcom/app/Main;'') = 16"
    "heap tagged (tags tagged 1) = Some (sig_str (answer 16 ''Lcom/app/Main;''))"
    by (simp_all add: scenario_defs)
  from duplicate_released [OF h] r t show ?thesis using h
    by (metis append_Nil)
qed

text \<open>
  Claim C6. The signature is computed and the call reaches the store into the tag slot
  (consistency checking is off, or the slot was read and is untagged). If the store fails,
  the call ends the process with the error code of the store; the fresh string has been
  released before, exactly once, and is not live; no tag slot was written.
\<close>

theorem setTag_failure_releases:
  assumes "sig_err a = JVMTI_ERROR_NONE" and "setTag_err a \<noteq> JVMTI_ERROR_NONE"
    and "assertsEnabled gdata \<longrightarrow> getTag_err a = JVMTI_ERROR_NONE \<and> tags s klass = NOT_TAGGED"
  shows "addPreparedClass gdata a klass s =
           Inl ((setTag_err a, ''SetTag''),
                s\<lparr>heap := (heap s)(sig_ptr a := None), allocated := allocated s @ [sig_ptr a],
                  deallocated := deallocated s @ [sig_ptr a]\<rparr>)"
  using assms
  by (auto simp add: tracker_defs)

theorem setTag_failure_releases_witness:
  "setTag_err ((answer 8 ''Lcom/app/Main;'')\<lparr>setTag_err := failure\<rparr>) \<noteq> JVMTI_ERROR_NONE
   \<and> tags started 1 = NOT_TAGGED
   \<and> addPreparedClass checked ((answer 8 ''Lcom/app/Main;'')\<lparr>setTag_err := failure\<rparr>) 1 started
       = Inl ((failure, ''SetTag''), started\<lparr>allocated := [8], deallocated := [8]\<rparr>)"
proof -
  let ?a = "(answer 8 ''Lcom/app/Main;'')\<lparr>setTag_err := failure\<rparr>"
  have h: "sig_err ?a = JVMTI_ERROR_NONE" "setTag_err ?a \<noteq> JVMTI_ERROR_NONE"
    "assertsEnabled checked \<longrightarrow> getTag_err ?a = JVMTI_ERROR_NONE \<and> tags started 1 = NOT_TAGGED"
    by (simp_all add: scenario_defs)
  from setTag_failure_releases [OF h] show ?thesis using h
    by (simp add: scenario_defs)
qed

text \<open>
  Claim C10. Consistency checking is off and the calls made succeed. Then
  \<^verbatim>\<open>addPreparedClass\<close> stores the fresh identity in the slot whatever the slot held: the
  result is the same whatever \<^verbatim>\<open>GetTag\<close> would have answered and whatever tag the slot
  held before, nothing is compared (no assertion is reported) and nothing is released; a
  string the slot held before stays live.
\<close>

theorem unchecked_overwrites:
  assumes "\<not> assertsEnabled gdata" and "sig_err a = JVMTI_ERROR_NONE"
    and "setTag_err a = JVMTI_ERROR_NONE"
  shows "addPreparedClass gdata a klass s =
           Inr (s\<lparr>heap := (heap s)(sig_ptr a \<mapsto> sig_str a), allocated := allocated s @ [sig_ptr a],
                  tags := (tags s)(klass := sig_ptr a)\<rparr>)
     \<and> addPreparedClass gdata (a\<lparr>getTag_err := e\<rparr>) klass s = addPreparedClass gdata a klass s
     \<and> addPreparedClass gdata a klass (s\<lparr>tags := (tags s)(klass := v)\<rparr>)
         = addPreparedClass gdata a klass s
     \<and> deallocated (final (addPreparedClass gdata a klass s)) = deallocated s
     \<and> assertions (final (addPreparedClass gdata a klass s)) = assertions s
     \<and> (tags s klass \<noteq> sig_ptr a \<longrightarrow>
          heap (final (addPreparedClass gdata a klass s)) (tags s klass) = heap s (tags s klass))"
  using assms
  by (auto simp add: tracker_defs final_def)

theorem unchecked_overwrites_witness:
  "\<not> assertsEnabled None \<and> tags tagged 1 = 8
   \<and> tags (final (addPreparedClass None (answer 16 ''Lcom/app/Main;'') 1 tagged)) 1 = 16
   \<and> deallocated (final (addPreparedClass None (answer 16 ''Lcom/app/Main;'') 1 tagged)) = []
   \<and> heap (final (addPreparedClass None (answer 16 ''Lcom/app/Main;'') 1 tagged)) 8
       = Some ''Lcom/app/Main;''"
proof -
  have h: "\<not> assertsEnabled None" "sig_err (answer 16 ''Lcom/app/Main;'') = JVMTI_ERROR_NONE"
    "setTag_err (answer 16 ''Lcom/app/Main;'') = JVMTI_ERROR_NONE"
    by (simp_all add: scenario_defs)
  from unchecked_overwrites [OF h, of 1 tagged] show ?thesis using h
    by (simp add: scenario_defs)
qed

subsection \<open>classTrack_initialize\<close>

lemma addPreparedClass_tagged:
  assumes "addPreparedClass gdata a klass s = Inr s'" and "sig_ptr a \<noteq> 0"
  shows "tags s' klass \<noteq> NOT_TAGGED \<and> (\<forall>k. tags s k \<noteq> NOT_TAGGED \<longrightarrow> tags s' k \<noteq> NOT_TAGGED)"
  using assms
  by (auto simp add: tracker_defs NOT_TAGGED_def Let_def split: if_splits option.splits)

lemma addPreparedClass_allocates:
  assumes "addPreparedClass gdata a klass s = Inr s'"
  shows "length (allocated s') = Suc (length (allocated s))"
  using assms
  by (auto simp add: tracker_defs Let_def split: if_splits option.splits)

lemma tagLoadedClasses_tagged:
  assumes "tagLoadedClasses gdata e i ks s = Inr s'"
    and "\<forall>j. i \<le> j \<and> j < i + length ks \<longrightarrow> sig_ptr (class_answers e j) \<noteq> 0"
  shows "(\<forall>k. tags s k \<noteq> NOT_TAGGED \<longrightarrow> tags s' k \<noteq> NOT_TAGGED)
       \<and> (\<forall>k \<in> set ks. prepared_or_array (classStatus e k) \<longrightarrow> tags s' k \<noteq> NOT_TAGGED)
       \<and> length (allocated s')
           = length (allocated s) + length (filter (\<lambda>k. prepared_or_array (classStatus e k)) ks)"
  using assms
proof (induction ks arbitrary: i s)
  case Nil
  then show ?case by simp
next
  case (Cons k ks)
  have ptrs: "\<forall>j. Suc i \<le> j \<and> j < Suc i + length ks \<longrightarrow> sig_ptr (class_answers e j) \<noteq> 0"
    using Cons.prems(2) by simp
  show ?case
  proof (cases "prepared_or_array (classStatus e k)")
    case False
    then have "tagLoadedClasses gdata e (Suc i) ks s = Inr s'"
      using Cons.prems(1) by (simp add: prepared_or_array_def Let_def)
    from Cons.IH [OF this ptrs] False show ?thesis by simp
  next
    case True
    then obtain s1 where s1: "addPreparedClass gdata (class_answers e i) k s = Inr s1"
      and rest: "tagLoadedClasses gdata e (Suc i) ks s1 = Inr s'"
      using Cons.prems(1) by (auto simp add: prepared_or_array_def Let_def split: sum.splits)
    have "sig_ptr (class_answers e i) \<noteq> 0"
      using Cons.prems(2) by simp
    from addPreparedClass_tagged [OF s1 this] addPreparedClass_allocates [OF s1]
      Cons.IH [OF rest ptrs] True
    show ?thesis by auto
  qed
qed

text \<open>
  Claim C4. When \<^verbatim>\<open>classTrack_initialize\<close> returns, every class of the enumeration
  whose status has the "prepared" bit or the "array" bit holds a tagged slot, and one
  identity was allocated for each of them (beside the array of the enumeration):
  \<^verbatim>\<open>addPreparedClass\<close> ran once for each. The signature buffers have non-null
  addresses.
\<close>

theorem bootstrap_complete:
  assumes "classTrack_initialize gdata e s = Inr s'"
    and "\<forall>i < length (classes e). sig_ptr (class_answers e i) \<noteq> 0"
  shows "(\<forall>klass \<in> set (classes e).
            prepared_or_array (classStatus e klass) \<longrightarrow> tags s' klass \<noteq> NOT_TAGGED)
     \<and> length (allocated s')
         = length (allocated s) + 1
           + length (filter (\<lambda>k. prepared_or_array (classStatus e k)) (classes e))"
proof -
  obtain s2 s3 where s2: "setupEvents e (s\<lparr>trackingEnv := getSpecialJvmti e\<rparr>) = (True, s2)"
    and s3: "tagLoadedClasses gdata e 0 (classes e) (s2\<lparr>allocated := allocated s2 @ [classes_ptr e]\<rparr>)
               = Inr s3"
    and s': "s' = jvmtiDeallocate (classes_ptr e) s3"
    using assms(1)
    by (auto simp add: classTrack_initialize_def allLoadedClasses_def Let_def EXIT_ERROR_def
        split: if_splits prod.splits sum.splits)
  have a2: "allocated s2 = allocated s"
    using s2 by (auto simp add: setupEvents_def Let_def split: if_splits)
  have "\<forall>j. 0 \<le> j \<and> j < 0 + length (classes e) \<longrightarrow> sig_ptr (class_answers e j) \<noteq> 0"
    using assms(2) by simp
  from tagLoadedClasses_tagged [OF s3 this] a2 show ?thesis
    by (simp add: s' jvmtiDeallocate_def)
qed

theorem bootstrap_complete_witness:
  "\<not> isl (classTrack_initialize checked boot initial)
   \<and> tags (final (classTrack_initialize checked boot initial)) 1 \<noteq> NOT_TAGGED
   \<and> tags (final (classTrack_initialize checked boot initial)) 3 \<noteq> NOT_TAGGED
   \<and> length (allocated (final (classTrack_initialize checked boot initial))) = 3"
proof -
  have r: "classTrack_initialize checked boot initial
             = Inr (final (classTrack_initialize checked boot initial))"
    by (simp add: tracker_defs scenario_defs classTrack_initialize_def setupEvents_def
        allLoadedClasses_def boot_def Let_def JVMTI_CLASS_STATUS_PREPARED_def
        JVMTI_CLASS_STATUS_ARRAY_def)
  have p: "\<forall>i < length (classes boot). sig_ptr (class_answers boot i) \<noteq> 0"
    by (simp add: boot_def answer_def)
  have c: "set (classes boot) = {1, 2, 3}" "prepared_or_array (classStatus boot (Suc 0))"
    "\<not> prepared_or_array (classStatus boot 2)" "prepared_or_array (classStatus boot 3)"
    "classes boot = [1, 2, 3]" "allocated initial = []"
    by (simp_all add: boot_def prepared_or_array_def JVMTI_CLASS_STATUS_PREPARED_def
        JVMTI_CLASS_STATUS_ARRAY_def initial_def)
  have n: "\<not> isl (classTrack_initialize checked boot initial)"
    by (simp add: tracker_defs scenario_defs classTrack_initialize_def setupEvents_def
        allLoadedClasses_def boot_def Let_def JVMTI_CLASS_STATUS_PREPARED_def
        JVMTI_CLASS_STATUS_ARRAY_def)
  from bootstrap_complete [OF r p] n show ?thesis
    by (simp add: c)
qed

text \<open>
  Claim C7. \<^verbatim>\<open>classTrack_initialize\<close> ends the process whenever a step of the set-up
  fails: no tagging handle, the capability refused, the callbacks refused, either kind of
  notification refused, or the enumeration of the loaded classes failing.
  \<^verbatim>\<open>addPreparedClass\<close> ends the process when the signature cannot be computed, and
  when the slot cannot be read during the consistency check.
\<close>

theorem setup_failures_fatal:
  "(getSpecialJvmti e = None \<or> addCapabilities_err e \<noteq> JVMTI_ERROR_NONE
      \<or> setEventCallbacks_err e \<noteq> JVMTI_ERROR_NONE \<or> enableObjectFree_err e \<noteq> JVMTI_ERROR_NONE
      \<or> enableClassPrepare_err e \<noteq> JVMTI_ERROR_NONE \<or> allLoadedClasses_err e \<noteq> JVMTI_ERROR_NONE
     \<longrightarrow> isl (classTrack_initialize gdata e s))
   \<and> (sig_err a \<noteq> JVMTI_ERROR_NONE \<or> assertsEnabled gdata \<and> getTag_err a \<noteq> JVMTI_ERROR_NONE
     \<longrightarrow> isl (addPreparedClass gdata a klass s))"
  by (auto simp add: classTrack_initialize_def setupEvents_def allLoadedClasses_def Let_def
      EXIT_ERROR_def addPreparedClass_def classSignature_def GetTag_def
      split: prod.splits sum.splits)

theorem setup_failures_fatal_witness:
  "isl (classTrack_initialize checked (boot\<lparr>getSpecialJvmti := None\<rparr>) initial)
   \<and> isl (classTrack_initialize checked (boot\<lparr>addCapabilities_err := failure\<rparr>) initial)
   \<and> isl (classTrack_initialize checked (boot\<lparr>setEventCallbacks_err := failure\<rparr>) initial)
   \<and> isl (classTrack_initialize checked (boot\<lparr>enableObjectFree_err := failure\<rparr>) initial)
   \<and> isl (classTrack_initialize checked (boot\<lparr>enableClassPrepare_err := failure\<rparr>) initial)
   \<and> isl (classTrack_initialize checked (boot\<lparr>allLoadedClasses_err := failure\<rparr>) initial)
   \<and> isl (addPreparedClass checked ((answer 8 ''Lcom/app/Main;'')\<lparr>sig_err := failure\<rparr>) 1 started)
   \<and> isl (addPreparedClass checked ((answer 8 ''Lcom/app/Main;'')\<lparr>getTag_err := failure\<rparr>) 1 started)"
proof -
  have f: "failure \<noteq> JVMTI_ERROR_NONE" "assertsEnabled checked"
    by (simp_all add: failure_def checked_def assertsEnabled_def)
  show ?thesis
    using setup_failures_fatal [where e = "boot\<lparr>getSpecialJvmti := None\<rparr>" and gdata = checked and s = initial]
      setup_failures_fatal [where e = "boot\<lparr>addCapabilities_err := failure\<rparr>" and gdata = checked and s = initial]
      setup_failures_fatal [where e = "boot\<lparr>setEventCallbacks_err := failure\<rparr>" and gdata = checked and s = initial]
      setup_failures_fatal [where e = "boot\<lparr>enableObjectFree_err := failure\<rparr>" and gdata = checked and s = initial]
      setup_failures_fatal [where e = "boot\<lparr>enableClassPrepare_err := failure\<rparr>" and gdata = checked and s = initial]
      setup_failures_fatal [where e = "boot\<lparr>allLoadedClasses_err := failure\<rparr>" and gdata = checked and s = initial]
      setup_failures_fatal [where a = "(answer 8 ''Lcom/app/Main;'')\<lparr>sig_err := failure\<rparr>" and gdata = checked and klass = 1 and s = started]
      setup_failures_fatal [where a = "(answer 8 ''Lcom/app/Main;'')\<lparr>getTag_err := failure\<rparr>" and gdata = checked and klass = 1 and s = started]
      f
    by simp
qed

subsection \<open>Runs of notifications: the tag of a class object\<close>

lemma addPreparedClass_keeps_tag:
  assumes "assertsEnabled gdata" and "tags s k \<noteq> NOT_TAGGED"
  shows "tags (final (addPreparedClass gdata a klass s)) k = tags s k"
  using assms
  by (auto simp add: tracker_defs final_def Let_def split: if_splits option.splits)

lemma deliver_keeps_tag:
  assumes "assertsEnabled gdata" and "tags s k \<noteq> NOT_TAGGED"
    and "\<forall>jvmti_env env. n \<noteq> ObjectFree jvmti_env k env"
  shows "tags (final (deliver gdata n s)) k = tags s k"
proof (cases n)
  case (Bootstrap klass a)
  then show ?thesis using addPreparedClass_keeps_tag [OF assms(1,2)] by simp
next
  case (ClassPrepare jvmti_env klass a)
  show ?thesis
  proof (cases "JDI_ASSERT gdata (jvmti_env = trackingEnv s) ''jvmti_env == trackingEnv'' s")
    case (Inl x)
    then show ?thesis using ClassPrepare
      by (auto simp add: cbTrackingClassPrepare_def final_def JDI_ASSERT_def
          jdiAssertionFailed_def EXIT_ERROR_def Let_def split: if_splits)
  next
    case (Inr s1)
    then have same: "tags s1 = tags s"
      by (auto simp add: JDI_ASSERT_def jdiAssertionFailed_def EXIT_ERROR_def Let_def
          split: if_splits)
    then have "tags s1 k \<noteq> NOT_TAGGED" using assms(2) by simp
    from addPreparedClass_keeps_tag [OF assms(1) this, of a klass] same
    show ?thesis using ClassPrepare Inr by (simp add: cbTrackingClassPrepare_def)
  qed
next
  case (ObjectFree jvmti_env klass env)
  then have "klass \<noteq> k" using assms(3) by auto
  then show ?thesis using ObjectFree
    by (auto simp add: tracker_defs final_def Let_def split: sum.splits if_splits)
qed

text \<open>
  Claim C3, as amended. With consistency checking on, a tag slot that holds a non-null
  identity keeps exactly that identity through every run of bootstrap calls and prepare
  notifications, on this class object or on others, for as long as the class object is
  not freed; this holds also in the state at which a run ends the process.
\<close>

theorem tag_kept_when_checked:
  assumes "assertsEnabled gdata" and "tags s k \<noteq> NOT_TAGGED"
    and "\<forall>jvmti_env env. ObjectFree jvmti_env k env \<notin> set ns"
  shows "tags (final (run gdata ns s)) k = tags s k"
  using assms(2,3)
proof (induction ns arbitrary: s)
  case Nil
  then show ?case by (simp add: final_def)
next
  case (Cons n ns)
  have n: "\<forall>jvmti_env env. n \<noteq> ObjectFree jvmti_env k env"
    and ns: "\<forall>jvmti_env env. ObjectFree jvmti_env k env \<notin> set ns"
    using Cons.prems(2) by auto
  have step: "tags (final (deliver gdata n s)) k = tags s k"
    by (rule deliver_keeps_tag [OF assms(1) Cons.prems(1) n])
  show ?case
  proof (cases "deliver gdata n s")
    case (Inl x)
    then show ?thesis using step by (simp add: final_def)
  next
    case (Inr s1)
    then have "tags s1 k = tags s k" using step by (simp add: final_def)
    with Cons.IH [of s1] Cons.prems(1) ns Inr show ?thesis by simp
  qed
qed

theorem tag_kept_when_checked_witness:
  "assertsEnabled checked \<and> tags tagged 1 \<noteq> NOT_TAGGED
   \<and> tags (final (run checked [main_again, helper_prepared, main_again] tagged)) 1 = 8"
proof -
  have h: "assertsEnabled checked" "tags tagged 1 \<noteq> NOT_TAGGED"
    "\<forall>jvmti_env env. ObjectFree jvmti_env 1 env \<notin> set [main_again, helper_prepared, main_again]"
    by (simp_all add: scenario_defs)
  have "tags tagged 1 = 8" by (simp add: scenario_defs)
  with tag_kept_when_checked [OF h] h show ?thesis by simp
qed

text \<open>
  Claim C3 as stated fails with consistency checking off: the class object is tagged with
  the identity at address 8 by the bootstrap, and the prepare notification for the same
  object replaces that tag by the identity at address 24.
\<close>

theorem tag_replaced_counterexample:
  "\<not> assertsEnabled None
   \<and> tags (final (run None [main_boot] started)) 1 = 8
   \<and> tags (final (run None [main_boot, main_again] started)) 1 = 24
   \<and> \<not> isl (run None [main_boot, main_again] started)"
  by (simp add: tracker_defs scenario_defs)

subsection \<open>Runs of notifications: the stored identity is the signature\<close>

lemma addPreparedClass_intact:
  assumes "intact sg s" and "''strcmp(signature, oldSignature) == 0'' \<notin> set (assertions s)"
    and "sig_err a = JVMTI_ERROR_NONE \<longrightarrow>
           sig_ptr a \<noteq> 0 \<and> heap s (sig_ptr a) = None \<and> sig_str a = sg klass"
  shows "intact sg (final (addPreparedClass gdata a klass s))
       \<and> ''strcmp(signature, oldSignature) == 0''
           \<notin> set (assertions (final (addPreparedClass gdata a klass s)))"
proof (cases "sig_err a = JVMTI_ERROR_NONE")
  case False
  then show ?thesis using assms(1,2)
    by (simp add: addPreparedClass_def classSignature_def EXIT_ERROR_def final_def)
next
  case True
  let ?r = "addPreparedClass gdata a klass s"
  have old: "tags s k \<noteq> 0 \<Longrightarrow> heap s (tags s k) = Some (sg k) \<and> tags s k \<noteq> sig_ptr a" for k
    using assms(1,3) True by (auto simp add: intact_def NOT_TAGGED_def)
  have "''strcmp(signature, oldSignature) == 0'' \<notin> set (assertions (final ?r))"
    using assms(2,3) True old [of klass]
    by (auto simp add: tracker_defs final_def NOT_TAGGED_def Let_def
        split: if_splits option.splits)
  moreover have "intact sg (final ?r)"
    unfolding intact_def
  proof (intro allI impI)
    fix k
    assume "tags (final ?r) k \<noteq> NOT_TAGGED"
    then show "heap (final ?r) (tags (final ?r) k) = Some (sg k)"
      using assms(3) True old [of klass] old [of k]
      by (auto simp add: tracker_defs final_def NOT_TAGGED_def Let_def
          split: if_splits option.splits)
  qed
  ultimately show ?thesis by simp
qed

lemma JDI_ASSERT_env_intact:
  assumes "intact sg s" and "''strcmp(signature, oldSignature) == 0'' \<notin> set (assertions s)"
  shows "intact sg (final (JDI_ASSERT gdata b ''jvmti_env == trackingEnv'' s))
   \<and> ''strcmp(signature, oldSignature) == 0''
       \<notin> set (assertions (final (JDI_ASSERT gdata b ''jvmti_env == trackingEnv'' s)))
   \<and> heap (final (JDI_ASSERT gdata b ''jvmti_env == trackingEnv'' s)) = heap s"
  using assms
  by (auto simp add: JDI_ASSERT_def jdiAssertionFailed_def EXIT_ERROR_def final_def intact_def
      Let_def)

lemma deliver_intact:
  assumes "intact sg s" and "''strcmp(signature, oldSignature) == 0'' \<notin> set (assertions s)"
    and "case prepared n of None \<Rightarrow> True
         | Some (klass, a) \<Rightarrow> sig_err a = JVMTI_ERROR_NONE \<longrightarrow>
             sig_ptr a \<noteq> 0 \<and> heap s (sig_ptr a) = None \<and> sig_str a = sg klass"
  shows "intact sg (final (deliver gdata n s))
       \<and> ''strcmp(signature, oldSignature) == 0'' \<notin> set (assertions (final (deliver gdata n s)))"
proof (cases n)
  case (Bootstrap klass a)
  then show ?thesis using addPreparedClass_intact [OF assms(1,2), of a klass gdata] assms(3)
    by simp
next
  case (ClassPrepare jvmti_env klass a)
  let ?r = "JDI_ASSERT gdata (jvmti_env = trackingEnv s) ''jvmti_env == trackingEnv'' s"
  note env = JDI_ASSERT_env_intact [OF assms(1,2), of gdata "jvmti_env = trackingEnv s"]
  show ?thesis
  proof (cases ?r)
    case (Inl x)
    then show ?thesis using ClassPrepare env
      by (simp add: cbTrackingClassPrepare_def final_def)
  next
    case (Inr s1)
    then have s1: "intact sg s1" "''strcmp(signature, oldSignature) == 0'' \<notin> set (assertions s1)"
      "heap s1 = heap s"
      using env by (simp_all add: final_def)
    have "sig_err a = JVMTI_ERROR_NONE \<longrightarrow>
            sig_ptr a \<noteq> 0 \<and> heap s1 (sig_ptr a) = None \<and> sig_str a = sg klass"
      using assms(3) ClassPrepare s1(3) by simp
    from addPreparedClass_intact [OF s1(1,2) this, of gdata]
    show ?thesis using ClassPrepare Inr by (simp add: cbTrackingClassPrepare_def)
  qed
next
  case (ObjectFree jvmti_env klass env)
  then show ?thesis using assms(1,2)
    by (auto simp add: tracker_defs final_def intact_def Let_def NOT_TAGGED_def
        split: sum.splits if_splits)
qed

text \<open>
  Claim C8. The signature computed for a class never changes, and the allocator hands out
  non-null addresses that hold no live string. Then, from a state in which every tagged
  slot holds the signature of its class, no run of notifications ever reports the failure
  of the assertion \<^verbatim>\<open>strcmp(signature, oldSignature) == 0\<close>, neither while it goes on
  nor in the state at which it ends the process; and every tagged slot still holds the
  signature of its class, so the next comparison succeeds as well.
\<close>

theorem strcmp_assertion_holds:
  assumes "well_behaved sg gdata ns s" and "intact sg s"
    and "''strcmp(signature, oldSignature) == 0'' \<notin> set (assertions s)"
  shows "''strcmp(signature, oldSignature) == 0'' \<notin> set (assertions (final (run gdata ns s)))
       \<and> intact sg (final (run gdata ns s))"
  using assms
proof (induction ns arbitrary: s)
  case Nil
  then show ?case by (simp add: final_def)
next
  case (Cons n ns)
  have ok: "case prepared n of None \<Rightarrow> True
         | Some (klass, a) \<Rightarrow> sig_err a = JVMTI_ERROR_NONE \<longrightarrow>
             sig_ptr a \<noteq> 0 \<and> heap s (sig_ptr a) = None \<and> sig_str a = sg klass"
    using Cons.prems(1) by simp
  note step = deliver_intact [OF Cons.prems(2,3) ok, of gdata]
  show ?case
  proof (cases "deliver gdata n s")
    case (Inl x)
    then show ?thesis using step by (simp add: final_def)
  next
    case (Inr s1)
    then have "well_behaved sg gdata ns s1" using Cons.prems(1) by simp
    moreover have "intact sg s1" "''strcmp(signature, oldSignature) == 0'' \<notin> set (assertions s1)"
      using step Inr by (simp_all add: final_def)
    ultimately show ?thesis using Cons.IH [of s1] Inr by simp
  qed
qed

theorem strcmp_assertion_holds_witness:
  "well_behaved signatures checked [main_boot, helper_prepared, main_again, main_freed] started
   \<and> intact signatures started
   \<and> assertions (final (run checked [main_boot, helper_prepared, main_again, main_freed] started)) = []
   \<and> deallocated (final (run checked [main_boot, helper_prepared, main_again, main_freed] started))
       = [24]"
proof -
  have h: "well_behaved signatures checked
             [main_boot, helper_prepared, main_again, main_freed] started"
    "intact signatures started"
    "''strcmp(signature, oldSignature) == 0'' \<notin> set (assertions started)"
    by (simp_all add: tracker_defs scenario_defs intact_def)
  have "deallocated (final (run checked [main_boot, helper_prepared, main_again, main_freed] started))
          = [24]"
    "assertions (final (run checked [main_boot, helper_prepared, main_again, main_freed] started))
          = []"
    by (simp_all add: tracker_defs scenario_defs)
  with strcmp_assertion_holds [OF h] h show ?thesis by simp
qed

subsection \<open>Runs of notifications: the books of the identity strings\<close>

lemma slots_store:
  fixes t :: "jclass \<Rightarrow> jlong"
  assumes "finite {k. t k \<noteq> 0}" and "t klass = 0" and "q \<noteq> 0"
  shows "card {k. (t(klass := p)) k = q} = card {k. t k = q} + (if q = p then 1 else 0)"
proof -
  have fin: "finite {k. t k = q}"
    by (rule finite_subset [OF _ assms(1)]) (use assms(3) in auto)
  have notin: "klass \<notin> {k. t k = q}"
    using assms(2,3) by auto
  show ?thesis
  proof (cases "q = p")
    case True
    then have "{k. (t(klass := p)) k = q} = insert klass {k. t k = q}" by auto
    then show ?thesis using fin notin True by simp
  next
    case False
    then have "{k. (t(klass := p)) k = q} = {k. t k = q}" using notin by auto
    then show ?thesis using False by simp
  qed
qed

lemma slots_free:
  fixes t :: "jclass \<Rightarrow> jlong"
  assumes "finite {k. t k \<noteq> 0}" and "q \<noteq> 0"
  shows "card {k. (t(klass := 0)) k = q} + (if q = t klass then 1 else 0) = card {k. t k = q}"
proof -
  have fin: "finite {k. t k = q}"
    by (rule finite_subset [OF _ assms(1)]) (use assms(2) in auto)
  have eq: "{k. (t(klass := 0)) k = q} = {k. t k = q} - {klass}"
    using assms(2) by auto
  show ?thesis
  proof (cases "q = t klass")
    case True
    then have "klass \<in> {k. t k = q}" by simp
    then have "0 < card {k. t k = q}"
      using fin by (auto simp add: card_gt_0_iff)
    then show ?thesis using eq True fin by simp
  next
    case False
    then have "klass \<notin> {k. t k = q}" by auto
    then show ?thesis using eq False by simp
  qed
qed

lemma finite_tagged_upd:
  fixes t :: "jclass \<Rightarrow> jlong"
  assumes "finite {k. t k \<noteq> 0}"
  shows "finite {k. (t(klass := p)) k \<noteq> 0}"
  by (rule finite_subset [OF _ finite.insertI [OF assms, of klass]]) auto

lemma ledger_released:
  assumes "ledger s" and "tags s' = tags s" and "allocated s' = allocated s @ [p]"
    and "deallocated s' = deallocated s @ [p]" and "unloads s' = unloads s"
  shows "ledger s'"
  using assms by (simp add: ledger_def)

lemma ledger_stored:
  assumes "ledger s" and "tags s klass = NOT_TAGGED" and "p \<noteq> 0"
    and "tags s' = (tags s)(klass := p)" and "allocated s' = allocated s @ [p]"
    and "deallocated s' = deallocated s" and "unloads s' = unloads s"
  shows "ledger s'"
proof -
  have fin: "finite {k. tags s k \<noteq> 0}"
    using assms(1) by (simp add: ledger_def NOT_TAGGED_def)
  have t0: "tags s klass = 0" using assms(2) by (simp add: NOT_TAGGED_def)
  show ?thesis
    unfolding ledger_def
  proof (intro conjI allI impI)
    show "finite {k. tags s' k \<noteq> NOT_TAGGED}"
      using finite_tagged_upd [OF fin, of klass p] by (simp add: assms(4) NOT_TAGGED_def)
  next
    fix q :: jlong
    assume q: "q \<noteq> 0"
    have "count_list (allocated s) q = count_list (deallocated s) q
            + count_list (map fst (unloads s)) q + card {k. tags s k = q}"
      using assms(1) q by (simp add: ledger_def)
    moreover have "card {k. tags s' k = q} = card {k. tags s k = q} + (if q = p then 1 else 0)"
      unfolding assms(4) by (rule slots_store [OF fin t0 q])
    ultimately show "count_list (allocated s') q = count_list (deallocated s') q
            + count_list (map fst (unloads s')) q + card {k. tags s' k = q}"
      by (simp add: assms(5,6,7) split: if_splits)
  qed
qed

lemma ledger_forwarded:
  assumes "ledger s" and "tags s klass \<noteq> NOT_TAGGED"
    and "tags s' = (tags s)(klass := NOT_TAGGED)" and "allocated s' = allocated s"
    and "deallocated s' = deallocated s" and "unloads s' = unloads s @ [(tags s klass, env)]"
  shows "ledger s'"
proof -
  have fin: "finite {k. tags s k \<noteq> 0}"
    using assms(1) by (simp add: ledger_def NOT_TAGGED_def)
  show ?thesis
    unfolding ledger_def
  proof (intro conjI allI impI)
    show "finite {k. tags s' k \<noteq> NOT_TAGGED}"
      using finite_tagged_upd [OF fin, of klass 0] by (simp add: assms(3) NOT_TAGGED_def)
  next
    fix q :: jlong
    assume q: "q \<noteq> 0"
    have "count_list (allocated s) q = count_list (deallocated s) q
            + count_list (map fst (unloads s)) q + card {k. tags s k = q}"
      using assms(1) q by (simp add: ledger_def)
    moreover have "card {k. tags s' k = q} + (if q = tags s klass then 1 else 0)
            = card {k. tags s k = q}"
      unfolding assms(3) NOT_TAGGED_def by (rule slots_free [OF fin q])
    ultimately show "count_list (allocated s') q = count_list (deallocated s') q
            + count_list (map fst (unloads s')) q + card {k. tags s' k = q}"
      by (simp add: assms(4,5,6) split: if_splits)
  qed
qed

lemma addPreparedClass_ledger:
  assumes "ledger s" and "addPreparedClass gdata a klass s = Inr s'"
    and "sig_err a = JVMTI_ERROR_NONE \<longrightarrow> sig_ptr a \<noteq> 0"
    and "assertsEnabled gdata \<or> tags s klass = NOT_TAGGED"
  shows "ledger s'"
proof -
  have ok: "sig_err a = JVMTI_ERROR_NONE"
    using assms(2)
    by (auto simp add: addPreparedClass_def classSignature_def EXIT_ERROR_def split: if_splits)
  then have p: "sig_ptr a \<noteq> 0" using assms(3) by simp
  have "(tags s' = tags s \<and> allocated s' = allocated s @ [sig_ptr a]
           \<and> deallocated s' = deallocated s @ [sig_ptr a] \<and> unloads s' = unloads s)
      \<or> (tags s klass = NOT_TAGGED \<and> tags s' = (tags s)(klass := sig_ptr a)
           \<and> allocated s' = allocated s @ [sig_ptr a]
           \<and> deallocated s' = deallocated s \<and> unloads s' = unloads s)"
    using assms(2,4) ok
    by (auto simp add: tracker_defs Let_def split: if_splits option.splits)
  then show ?thesis
    using ledger_released [OF assms(1)] ledger_stored [OF assms(1) _ p] by blast
qed

lemma JDI_ASSERT_ledger:
  assumes "ledger s" and "JDI_ASSERT gdata b m s = Inr s1"
  shows "ledger s1 \<and> tags s1 = tags s"
  using assms
  by (auto simp add: JDI_ASSERT_def jdiAssertionFailed_def EXIT_ERROR_def ledger_def Let_def
      split: if_splits)

lemma deliver_ledger:
  assumes "ledger s" and "deliver gdata n s = Inr s'"
    and "case prepared n of None \<Rightarrow> True
         | Some (klass, a) \<Rightarrow> (sig_err a = JVMTI_ERROR_NONE \<longrightarrow> sig_ptr a \<noteq> 0)
             \<and> (assertsEnabled gdata \<or> tags s klass = NOT_TAGGED)"
  shows "ledger s'"
proof (cases n)
  case (Bootstrap klass a)
  then show ?thesis using addPreparedClass_ledger [OF assms(1), of gdata a klass s'] assms(2,3)
    by simp
next
  case (ClassPrepare jvmti_env klass a)
  then obtain s1
    where s1: "JDI_ASSERT gdata (jvmti_env = trackingEnv s) ''jvmti_env == trackingEnv'' s = Inr s1"
      and s': "addPreparedClass gdata a klass s1 = Inr s'"
    using assms(2) by (auto simp add: cbTrackingClassPrepare_def split: sum.splits)
  from JDI_ASSERT_ledger [OF assms(1) s1] have l1: "ledger s1" and t1: "tags s1 = tags s"
    by simp_all
  show ?thesis
    using addPreparedClass_ledger [OF l1 s'] assms(3) ClassPrepare t1 by simp
next
  case (ObjectFree jvmti_env klass env)
  show ?thesis
  proof (cases "tags s klass = NOT_TAGGED")
    case True
    then show ?thesis using assms(1,2) ObjectFree by simp
  next
    case False
    then have "tags s' = (tags s)(klass := NOT_TAGGED) \<and> allocated s' = allocated s
        \<and> deallocated s' = deallocated s \<and> unloads s' = unloads s @ [(tags s klass, env)]"
      using assms(2) ObjectFree
      by (auto simp add: tracker_defs Let_def split: if_splits sum.splits)
    then show ?thesis using ledger_forwarded [OF assms(1) False] by blast
  qed
qed

lemma run_ledger:
  assumes "guarded gdata ns s" and "ledger s" and "run gdata ns s = Inr s'"
  shows "ledger s'"
  using assms
proof (induction ns arbitrary: s)
  case Nil
  then show ?case by simp
next
  case (Cons n ns)
  from Cons.prems(3) obtain s1 where s1: "deliver gdata n s = Inr s1"
    and rest: "run gdata ns s1 = Inr s'"
    by (auto split: sum.splits)
  have "ledger s1"
    using deliver_ledger [OF Cons.prems(2) s1] Cons.prems(1) by simp
  moreover have "guarded gdata ns s1" using Cons.prems(1) s1 by simp
  ultimately show ?case using Cons.IH rest by blast
qed

lemma singleton_unique:
  fixes t :: "jclass \<Rightarrow> jlong"
  assumes x: "t x = p" and u: "\<forall>y. t y = p \<longrightarrow> y = x"
  shows "{k. t k = p} = {x}"
proof (rule set_eqI)
  fix k
  show "k \<in> {k. t k = p} \<longleftrightarrow> k \<in> {x}"
    using x u by blast
qed

lemma card_one_unique:
  fixes t :: "jclass \<Rightarrow> jlong"
  shows "card {k. t k = p} = 1 \<longleftrightarrow> (\<exists>!k. t k = p)"
proof
  assume "card {k. t k = p} = 1"
  then have "\<exists>x. {k. t k = p} = {x}"
    by (simp add: card_1_singleton_iff)
  then obtain x where "{k. t k = p} = {x}" ..
  then have "\<forall>k. t k = p \<longleftrightarrow> k = x" by (simp add: set_eq_iff)
  then show "\<exists>!k. t k = p" by auto
next
  assume "\<exists>!k. t k = p"
  then obtain x where "t x = p" and "\<forall>y. t y = p \<longrightarrow> y = x" by blast
  then have "{k. t k = p} = {x}" by (rule singleton_unique)
  then show "card {k. t k = p} = 1" by simp
qed

lemma ledger_once:
  assumes "ledger s" and "p \<noteq> 0" and "count_list (allocated s) p = 1"
  shows "(count_list (deallocated s) p = 1 \<and> p \<notin> fst ` set (unloads s) \<and> (\<forall>k. tags s k \<noteq> p))
       \<or> (p \<notin> set (deallocated s) \<and> count_list (map fst (unloads s)) p = 1 \<and> (\<forall>k. tags s k \<noteq> p))
       \<or> (p \<notin> set (deallocated s) \<and> p \<notin> fst ` set (unloads s) \<and> (\<exists>!k. tags s k = p))"
proof -
  have tagged: "finite {k. tags s k \<noteq> NOT_TAGGED}"
    and books: "\<forall>q. q \<noteq> 0 \<longrightarrow> count_list (allocated s) q =
        count_list (deallocated s) q + count_list (map fst (unloads s)) q
          + card {k. tags s k = q}"
    using assms(1) unfolding ledger_def by blast+
  have "{k. tags s k = p} \<subseteq> {k. tags s k \<noteq> NOT_TAGGED}"
    using assms(2) by (auto simp add: NOT_TAGGED_def)
  then have fin: "finite {k. tags s k = p}"
    using tagged by (rule finite_subset)
  have "count_list (allocated s) p = count_list (deallocated s) p
          + count_list (map fst (unloads s)) p + card {k. tags s k = p}"
    using books assms(2) by blast
  then have sum: "count_list (deallocated s) p + count_list (map fst (unloads s)) p
               + card {k. tags s k = p} = 1"
    using assms(3) by linarith
  have d: "count_list (deallocated s) p = 0 \<longleftrightarrow> p \<notin> set (deallocated s)"
    by (simp add: count_list_0_iff)
  have f: "count_list (map fst (unloads s)) p = 0 \<longleftrightarrow> p \<notin> fst ` set (unloads s)"
    by (simp add: count_list_0_iff)
  have c0: "card {k. tags s k = p} = 0 \<longleftrightarrow> (\<forall>k. tags s k \<noteq> p)"
    using fin by auto
  have c1: "card {k. tags s k = p} = 1 \<longleftrightarrow> (\<exists>!k. tags s k = p)"
    by (rule card_one_unique)
  define D where "D = count_list (deallocated s) p"
  define F where "F = count_list (map fst (unloads s)) p"
  define C where "C = card {k. tags s k = p}"
  have "D + F + C = 1" using sum by (simp add: D_def F_def C_def)
  then consider "D = 1" "F = 0" "C = 0" | "D = 0" "F = 1" "C = 0" | "D = 0" "F = 0" "C = 1"
    by arith
  then show ?thesis
  proof cases
    case 1
    have "count_list (deallocated s) p = 1"
      using 1(1) unfolding D_def .
    moreover have "p \<notin> fst ` set (unloads s)"
      using 1(2) unfolding F_def by (rule f [THEN iffD1])
    moreover have "\<forall>k. tags s k \<noteq> p"
      using 1(3) unfolding C_def by (rule c0 [THEN iffD1])
    ultimately show ?thesis by (intro disjI1 conjI)
  next
    case 2
    have "p \<notin> set (deallocated s)"
      using 2(1) unfolding D_def by (rule d [THEN iffD1])
    moreover have "count_list (map fst (unloads s)) p = 1"
      using 2(2) unfolding F_def .
    moreover have "\<forall>k. tags s k \<noteq> p"
      using 2(3) unfolding C_def by (rule c0 [THEN iffD1])
    ultimately show ?thesis by (intro disjI2 disjI1 conjI)
  next
    case 3
    have "p \<notin> set (deallocated s)"
      using 3(1) unfolding D_def by (rule d [THEN iffD1])
    moreover have "p \<notin> fst ` set (unloads s)"
      using 3(2) unfolding F_def by (rule f [THEN iffD1])
    moreover have "\<exists>!k. tags s k = p"
      using 3(3) unfolding C_def by (rule c1 [THEN iffD1])
    ultimately show ?thesis by (intro disjI2 conjI)
  qed
qed

text \<open>
  Claim C2, as amended. The condition is on the whole run, not on one invocation: the run
  starts from a state whose books balance, every invocation of \<^verbatim>\<open>addPreparedClass\<close>
  in it, the later ones included, is made with consistency checking on or on a class
  object whose slot is untagged at that moment, every signature buffer has a non-null
  address, and the run does not end the process. Then the books balance after the run:
  each address was allocated as often as it was released, forwarded to the event consumer
  or is held by a tag slot now. So an identity whose address was allocated once was either
  released once, or forwarded once, or is held by exactly one slot, from which the
  object-freed notification will forward it; and never two of these.
\<close>

theorem identities_accounted:
  assumes "ledger s" and "guarded gdata ns s" and "run gdata ns s = Inr s'"
  shows "ledger s'
     \<and> (\<forall>p. p \<noteq> 0 \<and> count_list (allocated s') p = 1 \<longrightarrow>
          (count_list (deallocated s') p = 1 \<and> p \<notin> fst ` set (unloads s')
             \<and> (\<forall>k. tags s' k \<noteq> p))
        \<or> (p \<notin> set (deallocated s') \<and> count_list (map fst (unloads s')) p = 1
             \<and> (\<forall>k. tags s' k \<noteq> p))
        \<or> (p \<notin> set (deallocated s') \<and> p \<notin> fst ` set (unloads s')
             \<and> (\<exists>!k. tags s' k = p)))"
proof -
  have "ledger s'" by (rule run_ledger [OF assms(2,1,3)])
  then show ?thesis using ledger_once [of s'] by blast
qed

theorem identities_accounted_witness:
  "ledger started \<and> guarded checked twice started \<and> \<not> isl (run checked twice started)
   \<and> ledger (final (run checked twice started))
   \<and> allocated (final (run checked twice started)) = [8, 24]
   \<and> deallocated (final (run checked twice started)) = [24]
   \<and> unloads (final (run checked twice started)) = [(8, 5)]"
proof -
  have h: "ledger started" "guarded checked twice started"
    "run checked twice started = Inr (final (run checked twice started))"
    by (simp_all add: tracker_defs scenario_defs ledger_def)
  have v: "\<not> isl (run checked twice started)"
    "allocated (final (run checked twice started)) = [8, 24]"
    "deallocated (final (run checked twice started)) = [24]"
    "unloads (final (run checked twice started)) = [(8, 5)]"
    by (simp_all add: tracker_defs scenario_defs)
  from identities_accounted [OF h] h(1,2) v show ?thesis by blast
qed

text \<open>
  Claim C2 as stated fails with consistency checking off on a class object that is already
  tagged: the bootstrap stores the identity at address 8, the prepare notification for the
  same object overwrites the slot with the identity at address 24, and the object is
  freed. The identity at address 8 was allocated, and it is neither released nor forwarded
  nor held by a slot: the books do not balance.
\<close>

theorem identity_lost_counterexample:
  "\<not> assertsEnabled None \<and> \<not> isl (run None twice started)
   \<and> allocated (final (run None twice started)) = [8, 24]
   \<and> deallocated (final (run None twice started)) = []
   \<and> unloads (final (run None twice started)) = [(24, 5)]
   \<and> tags (final (run None twice started)) = (\<lambda>k. NOT_TAGGED)
   \<and> \<not> ledger (final (run None twice started))"
proof -
  have v: "\<not> assertsEnabled None" "\<not> isl (run None twice started)"
    "allocated (final (run None twice started)) = [8, 24]"
    "deallocated (final (run None twice started)) = []"
    "unloads (final (run None twice started)) = [(24, 5)]"
    "tags (final (run None twice started)) = (\<lambda>k. NOT_TAGGED)"
    by (simp_all add: tracker_defs scenario_defs fun_eq_iff)
  have "\<not> ledger (final (run None twice started))"
  proof
    assume "ledger (final (run None twice started))"
    then have "count_list (allocated (final (run None twice started))) 8 =
        count_list (deallocated (final (run None twice started))) 8
        + count_list (map fst (unloads (final (run None twice started)))) 8
        + card {k. tags (final (run None twice started)) k = 8}"
      by (simp add: ledger_def)
    then show False by (simp add: v NOT_TAGGED_def)
  qed
  with v show ?thesis by blast
qed

end
